theory Spec2Isabelle
  imports Complex_Main "HOL-Library.Sublist" "HOL-Library.Multiset"
begin

section \<open>Python values used by \<^verbatim>\<open>text_processor.py\<close>\<close>

text \<open>
  A Python \<^verbatim>\<open>dict\<close> remembers the order in which its keys were first inserted, and
  \<^verbatim>\<open>get_top_words\<close> sorts \<^verbatim>\<open>counter.items()\<close> with a stable sort, so that order
  is observable in the top-10 list. A counter is therefore an association list in insertion
  order whose keys are pairwise different; the counts are Python integers.
\<close>

type_synonym counter = "(string \<times> int) list"

text \<open>\<^verbatim>\<open>d.get(k, default)\<close>.\<close>

fun dict_get :: "counter \<Rightarrow> string \<Rightarrow> int \<Rightarrow> int" where
  "dict_get [] k d = d"
| "dict_get ((k', v) # kvs) k d = (if k' = k then v else dict_get kvs k d)"

text \<open>
  \<^verbatim>\<open>d[k] = v\<close>: an existing key keeps its position and gets the new value, a new key is
  appended.
\<close>

fun dict_set :: "counter \<Rightarrow> string \<Rightarrow> int \<Rightarrow> counter" where
  "dict_set [] k v = [(k, v)]"
| "dict_set ((k', v') # kvs) k v =
     (if k' = k then (k', v) # kvs else (k', v') # dict_set kvs k v)"

text \<open>\<^verbatim>\<open>k in d\<close>, \<^verbatim>\<open>d.keys()\<close>, \<^verbatim>\<open>d.values()\<close> and \<^verbatim>\<open>len(d)\<close>.\<close>

definition dict_keys :: "counter \<Rightarrow> string list" where
  "dict_keys d = map fst d"

definition dict_values :: "counter \<Rightarrow> int list" where
  "dict_values d = map snd d"

definition dict_len :: "counter \<Rightarrow> nat" where
  "dict_len d = length d"

text \<open>
  The well-formed counters: no key occurs twice. Every counter the program builds is
  well formed (lemmas \<open>wf_dict_count_words_simple\<close>, \<open>wf_dict_merge_counters\<close>).
\<close>

definition wf_dict :: "counter \<Rightarrow> bool" where
  "wf_dict d = distinct (map fst d)"

text \<open>
  \<^verbatim>\<open>d1 == d2\<close> on dictionaries: the same number of items, and every item of \<open>d1\<close> is
  found in \<open>d2\<close> with an equal value. The insertion order plays no part.
\<close>

definition dict_eq :: "counter \<Rightarrow> counter \<Rightarrow> bool" where
  "dict_eq d1 d2 =
     (length d1 = length d2 \<and> list_all (\<lambda>(k, v). map_of d2 k = Some v) d1)"

text \<open>
  \<^verbatim>\<open>xs[:n]\<close>: a negative \<open>n\<close> counts from the end of the list.
\<close>

definition py_slice_upto :: "'a list \<Rightarrow> int \<Rightarrow> 'a list" where
  "py_slice_upto xs n =
     (if 0 \<le> n then take (nat n) xs else take (nat (int (length xs) + n)) xs)"

text \<open>
  \<^verbatim>\<open>sorted(items, key=lambda x: x[1], reverse=True)\<close>. CPython's sort is stable, and with
  \<^verbatim>\<open>reverse=True\<close> it reverses the list, sorts it in ascending order of the key and
  reverses the result, so items with equal counts keep their relative order.
  \<^const>\<open>sort_key\<close> is a stable insertion sort.
\<close>

definition sorted_by_count_reverse :: "counter \<Rightarrow> (string \<times> int) list" where
  "sorted_by_count_reverse items = rev (sort_key snd (rev items))"

section \<open>Word counting (\<^verbatim>\<open>text_processor.py\<close>, lines 8 to 26)\<close>

text \<open>
  \<^verbatim>\<open>
  def count_words_simple(words):
      counter = {}
      for word in words:
          counter[word] = counter.get(word, 0) + 1
      return counter
  \<close>
\<close>

definition count_words_simple :: "string list \<Rightarrow> counter" where
  "count_words_simple words =
     foldl (\<lambda>counter word. dict_set counter word (dict_get counter word 0 + 1)) [] words"

text \<open>
  \<^verbatim>\<open>
  def merge_counters(counter_list):
      result = {}
      for counter in counter_list:
          for word, count in counter.items():
              result[word] = result.get(word, 0) + count
      return result
  \<close>
\<close>

definition merge_counters :: "counter list \<Rightarrow> counter" where
  "merge_counters counter_list =
     foldl (\<lambda>result counter.
              foldl (\<lambda>result (word, count). dict_set result word (dict_get result word 0 + count))
                result counter)
       [] counter_list"

text \<open>
  \<^verbatim>\<open>
  def get_top_words(counter, n=10):
      sorted_words = sorted(counter.items(), key=lambda x: x[1], reverse=True)
      return sorted_words[:n]
  \<close>
\<close>

definition get_top_words :: "counter \<Rightarrow> int \<Rightarrow> (string \<times> int) list" where
  "get_top_words counter n = py_slice_upto (sorted_by_count_reverse counter) n"

section \<open>Text, exceptions and the file system\<close>

text \<open>
  A Python \<^verbatim>\<open>str\<close> is modelled as a \<^typ>\<open>string\<close> whose characters are read as code
  points. The character classes below are Python's on the ASCII range, which is the range
  of \<^verbatim>\<open>string.punctuation\<close> and of the texts the specification names; a character from
  128 on is kept by \<open>py_lower\<close> and is neither white space nor alphabetic here.
\<close>

definition is_ascii_upper :: "char \<Rightarrow> bool" where
  "is_ascii_upper c = (c \<in> set ''ABCDEFGHIJKLMNOPQRSTUVWXYZ'')"

definition is_ascii_lower :: "char \<Rightarrow> bool" where
  "is_ascii_lower c = (c \<in> set ''abcdefghijklmnopqrstuvwxyz'')"

text \<open>\<^verbatim>\<open>str.lower()\<close>: an upper-case letter moves 32 code points up.\<close>

definition py_lower :: "string \<Rightarrow> string" where
  "py_lower s = map (\<lambda>c. if is_ascii_upper c then char_of (of_char c + (32::nat)) else c) s"

text \<open>
  \<^verbatim>\<open>string.punctuation\<close>, the 32 characters
  \<^verbatim>\<open>!"#$%&'()*+,-./:;<=>?@[\]^_`{|}~\<close>; the quotes, the backslash and the backquote are
  written by their code points.
\<close>

definition punctuation :: string where
  "punctuation =
     ''!'' @ [CHR 0x22] @ ''#$%&'' @ [CHR 0x27] @ ''()*+,-./:;<=>?@['' @ [CHR 0x5C]
       @ '']^_'' @ [CHR 0x60] @ ''{|}~''"

text \<open>
  \<^verbatim>\<open>text.translate(str.maketrans('', '', string.punctuation))\<close> deletes every character
  of \<^verbatim>\<open>string.punctuation\<close> and keeps the others in place.
\<close>

definition remove_punctuation :: "string \<Rightarrow> string" where
  "remove_punctuation s = filter (\<lambda>c. c \<notin> set punctuation) s"

text \<open>
  The white space \<^verbatim>\<open>str.split()\<close> splits at: tab, line feed, vertical tab, form feed,
  carriage return, the four separators 0x1C to 0x1F, and the space.
\<close>

definition is_space :: "char \<Rightarrow> bool" where
  "is_space c =
     (c \<in> {CHR 0x09, CHR 0x0A, CHR 0x0B, CHR 0x0C, CHR 0x0D,
            CHR 0x1C, CHR 0x1D, CHR 0x1E, CHR 0x1F, CHR 0x20})"

text \<open>
  \<^verbatim>\<open>s.split()\<close>: the maximal runs of characters that are not white space, in order; no
  empty string is produced. \<open>cur\<close> is the run being read.
\<close>

fun split_from :: "string \<Rightarrow> string \<Rightarrow> string list" where
  "split_from cur [] = (if cur = [] then [] else [cur])"
| "split_from cur (c # cs) =
     (if is_space c then (if cur = [] then split_from [] cs else cur # split_from [] cs)
      else split_from (cur @ [c]) cs)"

definition py_split :: "string \<Rightarrow> string list" where
  "py_split s = split_from [] s"

text \<open>\<^verbatim>\<open>word.isalpha()\<close>: at least one character, and every character a letter.\<close>

definition py_isalpha :: "string \<Rightarrow> bool" where
  "py_isalpha w = (w \<noteq> [] \<and> list_all (\<lambda>c. is_ascii_lower c \<or> is_ascii_upper c) w)"

text \<open>\<^verbatim>\<open>filename.endswith(suffix)\<close>.\<close>

definition endswith :: "string \<Rightarrow> string \<Rightarrow> bool" where
  "endswith s suf = (length suf \<le> length s \<and> drop (length s - length suf) s = suf)"

text \<open>\<^verbatim>\<open>os.path.join(a, b)\<close> of \<^verbatim>\<open>posixpath\<close>, for two arguments.\<close>

definition path_join :: "string \<Rightarrow> string \<Rightarrow> string" where
  "path_join a b =
     (if take 1 b = ''/'' then b
      else if a = [] \<or> endswith a ''/'' then a @ b
      else a @ ''/'' @ b)"

text \<open>\<^verbatim>\<open>os.path.basename(p)\<close> of \<^verbatim>\<open>posixpath\<close>: what follows the last slash.\<close>

definition basename :: "string \<Rightarrow> string" where
  "basename p = rev (takeWhile (\<lambda>c. c \<noteq> CHR ''/'') (rev p))"

text \<open>
  The exceptions the modelled calls raise. All of them are subclasses of \<^verbatim>\<open>Exception\<close>,
  which is what the handlers of \<^verbatim>\<open>read_and_clean_file\<close> catch. \<open>ValueError\<close> is what
  \<^verbatim>\<open>range\<close> raises for a step of zero.
\<close>

datatype exn =
    FileNotFoundError
  | PermissionError
  | IsADirectoryError
  | NotADirectoryError
  | OSError
  | ValueError

text \<open>
  What the program reads from its surroundings, fixed for one run (a directory snapshot):
  \<^item> \<open>listdir\<close>: \<^verbatim>\<open>os.listdir(folder_path)\<close>, the names in the order the system lists
    them, or the exception raised;
  \<^item> \<open>open_read\<close>: \<^verbatim>\<open>open(filepath, 'r', encoding='utf-8', errors='ignore')\<close> followed by
    \<^verbatim>\<open>f.read()\<close>: the decoded text, or the exception raised;
  \<^item> \<open>file_elapsed\<close> and \<open>run_elapsed\<close>: the differences of \<^verbatim>\<open>time.time()\<close> readings the
    program measures around one file and around one run. The clock is not modelled;
    the durations are inputs, and no theorem depends on their values.
\<close>

record world =
  listdir :: "string \<Rightarrow> exn + string list"
  open_read :: "string \<Rightarrow> exn + string"
  file_elapsed :: "string \<Rightarrow> real"
  run_elapsed :: "string \<Rightarrow> real"

text \<open>The lines the modelled functions print, by their format strings.\<close>

datatype console_line =
    Info_processed string nat real
  | Error_reading string exn
  | Info_computing string
  | Info_completed real

section \<open>Reading and cleaning one file (lines 29 to 50 and 62 to 83)\<close>

text \<open>
  \<^verbatim>\<open>
  def read_and_clean_file_standalone(filepath):
      start_time = time.time()
      try:
          with open(filepath, 'r', encoding='utf-8', errors='ignore') as f:
              text = f.read().lower()
          translator = str.maketrans('', '', string.punctuation)
          cleaned_text = text.translate(translator)
          words = [word for word in cleaned_text.split() if word.isalpha()]
          processing_time = time.time() - start_time
          print(f"[INFO] Processed {os.path.basename(filepath)}: {len(words)} words in ...")
          return filepath, words, processing_time
      except Exception as e:
          processing_time = time.time() - start_time
          print(f"[ERROR] Error reading {filepath}: {e}")
          return filepath, [], processing_time
  \<close>
  The result is the returned triple together with the line printed.
\<close>

type_synonym file_result = "string \<times> string list \<times> real"

definition read_and_clean_file_standalone :: "world \<Rightarrow> string \<Rightarrow> file_result \<times> console_line" where
  "read_and_clean_file_standalone e filepath =
     (case open_read e filepath of
        Inr content \<Rightarrow>
          (let lowered = py_lower content;
               cleaned_text = remove_punctuation lowered;
               words = filter py_isalpha (py_split cleaned_text);
               processing_time = file_elapsed e filepath
           in ((filepath, words, processing_time),
               Info_processed (basename filepath) (length words) processing_time))
      | Inl x \<Rightarrow>
          (let processing_time = file_elapsed e filepath
           in ((filepath, [], processing_time), Error_reading filepath x)))"

text \<open>The method \<^verbatim>\<open>TextProcessor.read_and_clean_file\<close> has the same body.\<close>

definition read_and_clean_file :: "world \<Rightarrow> string \<Rightarrow> file_result \<times> console_line" where
  "read_and_clean_file e filepath =
     (case open_read e filepath of
        Inr content \<Rightarrow>
          (let lowered = py_lower content;
               cleaned_text = remove_punctuation lowered;
               words = filter py_isalpha (py_split cleaned_text);
               processing_time = file_elapsed e filepath
           in ((filepath, words, processing_time),
               Info_processed (basename filepath) (length words) processing_time))
      | Inl x \<Rightarrow>
          (let processing_time = file_elapsed e filepath
           in ((filepath, [], processing_time), Error_reading filepath x)))"

section \<open>The three processing strategies (lines 85 to 195)\<close>

text \<open>
  Each strategy starts with the same discovery of the files:
  \<^verbatim>\<open>
  filepaths = [
      os.path.join(folder_path, filename)
      for filename in os.listdir(folder_path)
      if filename.endswith(".txt")
  ]
  \<close>
  Here \<open>names\<close> is what \<^verbatim>\<open>os.listdir\<close> returned.
\<close>

definition txt_filepaths :: "string \<Rightarrow> string list \<Rightarrow> string list" where
  "txt_filepaths folder_path names =
     map (path_join folder_path) (filter (\<lambda>filename. endswith filename ''.txt'') names)"

text \<open>The dictionary each strategy returns.\<close>

record batch_result =
  words :: "string list"
  method_label :: string
  total_time :: real
  processing_time :: real

text \<open>
  \<^verbatim>\<open>
  all_words = []
  total_processing_time = 0
  for filepath in filepaths:
      filepath_result, words, proc_time = self.read_and_clean_file(filepath)
      all_words.extend(words)
      total_processing_time += proc_time
  \<close>
  An exception of \<^verbatim>\<open>os.listdir\<close> is not caught and leaves the function.
\<close>

definition process_with_sequential :: "world \<Rightarrow> string \<Rightarrow> exn + batch_result" where
  "process_with_sequential e folder_path =
     (case listdir e folder_path of
        Inl x \<Rightarrow> Inl x
      | Inr names \<Rightarrow>
          (let filepaths = txt_filepaths folder_path names;
               (all_words, total_processing_time) =
                 foldl (\<lambda>(all_words, total_processing_time) filepath.
                          (case fst (read_and_clean_file e filepath) of
                             (filepath_result, ws, proc_time) \<Rightarrow>
                               (all_words @ ws, total_processing_time + proc_time)))
                   ([], 0) filepaths
           in Inr \<lparr>words = all_words, method_label = ''sequential'',
                    total_time = run_elapsed e ''sequential'',
                    processing_time = total_processing_time\<rparr>))"

text \<open>
  The threads. Every thread \<open>i\<close> computes its result from data no other thread writes,
  and then stores it at index \<open>i\<close> of the shared list \<^verbatim>\<open>results\<close>; the main thread reads
  the list only after it has joined every thread. What an execution adds to the
  sequential reading is the order in which the threads store their results: the schedule
  \<open>sched\<close>, a list of the thread indices. \<open>job i\<close> is what thread \<open>i\<close> computes.
\<close>

definition run_threads :: "nat list \<Rightarrow> (nat \<Rightarrow> 'a) \<Rightarrow> 'a option list \<Rightarrow> 'a option list" where
  "run_threads sched job results = foldl (\<lambda>results i. results[i := Some (job i)]) results sched"

text \<open>
  The schedules of \<open>n\<close> threads: every thread started is joined, so each index from \<open>0\<close>
  to \<open>n - 1\<close> stores exactly once, in any order.
\<close>

definition schedule_of :: "nat \<Rightarrow> nat list \<Rightarrow> bool" where
  "schedule_of n sched = (sort sched = [0..<n])"

text \<open>
  \<^verbatim>\<open>
  def worker(filepath, results, index):
      result = self.read_and_clean_file(filepath)
      with self.lock:
          results[index] = result
  results = [None] * len(filepaths)
  for i, filepath in enumerate(filepaths):
      thread = threading.Thread(target=worker, args=(filepath, results, i))
      threads.append(thread)
      thread.start()
  for thread in threads:
      thread.join()
  for result in results:
      if result:
          filepath, words, proc_time = result
          all_words.extend(words)
          total_processing_time += proc_time
  \<close>
  A result is a triple and so is true; only \<^verbatim>\<open>None\<close> is skipped.
\<close>

definition process_with_threading :: "world \<Rightarrow> nat list \<Rightarrow> string \<Rightarrow> exn + batch_result" where
  "process_with_threading e sched folder_path =
     (case listdir e folder_path of
        Inl x \<Rightarrow> Inl x
      | Inr names \<Rightarrow>
          (let filepaths = txt_filepaths folder_path names;
               results = run_threads sched (\<lambda>i. fst (read_and_clean_file e (filepaths ! i)))
                           (replicate (length filepaths) None);
               (all_words, total_processing_time) =
                 foldl (\<lambda>(all_words, total_processing_time) result.
                          (case result of
                             None \<Rightarrow> (all_words, total_processing_time)
                           | Some (filepath, ws, proc_time) \<Rightarrow>
                               (all_words @ ws, total_processing_time + proc_time)))
                   ([], 0) results
           in Inr \<lparr>words = all_words, method_label = ''threading'',
                    total_time = run_elapsed e ''threading'',
                    processing_time = total_processing_time\<rparr>))"

text \<open>
  \<^verbatim>\<open>pool.map(func, iterable)\<close> of \<^verbatim>\<open>multiprocessing.Pool\<close> blocks until every task is done
  and returns the results in the order of the inputs, whichever worker computed them.
\<close>

definition pool_map :: "('a \<Rightarrow> 'b) \<Rightarrow> 'a list \<Rightarrow> 'b list" where
  "pool_map func iterable = map func iterable"

text \<open>
  \<^verbatim>\<open>
  with multiprocessing.Pool(4) as pool:
      results = pool.map(read_and_clean_file_standalone, filepaths)
  for filepath, words, proc_time in results:
      all_words.extend(words)
      total_processing_time += proc_time
  \<close>
\<close>

definition process_with_multiprocessing :: "world \<Rightarrow> string \<Rightarrow> exn + batch_result" where
  "process_with_multiprocessing e folder_path =
     (case listdir e folder_path of
        Inl x \<Rightarrow> Inl x
      | Inr names \<Rightarrow>
          (let filepaths = txt_filepaths folder_path names;
               results = pool_map (\<lambda>filepath. fst (read_and_clean_file_standalone e filepath))
                           filepaths;
               (all_words, total_processing_time) =
                 foldl (\<lambda>(all_words, total_processing_time) (filepath, ws, proc_time).
                          (all_words @ ws, total_processing_time + proc_time))
                   ([], 0) results
           in Inr \<lparr>words = all_words, method_label = ''multiprocessing'',
                    total_time = run_elapsed e ''multiprocessing'',
                    processing_time = total_processing_time\<rparr>))"

section \<open>Statistics (lines 197 to 296)\<close>

record statistics =
  total_words :: int
  unique_words :: nat
  frequencies :: counter
  top_10 :: "(string \<times> int) list"
  computation_time :: real

text \<open>
  \<^verbatim>\<open>
  def compute_word_statistics_simple(self, words, method='threading'):
      print(f"[INFO] Computing statistics using {method}...")
      start_time = time.time()
      total_counter = count_words_simple(words)
      computation_time = time.time() - start_time
      print(f"[INFO] Statistics computation completed in {computation_time:.4f} seconds")
      return {
          'total_words': sum(total_counter.values()),
          'unique_words': len(total_counter),
          'frequencies': total_counter,
          'top_10': get_top_words(total_counter, 10),
          'computation_time': computation_time
      }
  \<close>
  The result is the returned dictionary together with the two lines printed.
  \<open>statistics_of\<close> is the dictionary literal of the \<^verbatim>\<open>return\<close> statement, which the
  two chunked computations below repeat word for word.
\<close>

definition statistics_of :: "counter \<Rightarrow> real \<Rightarrow> statistics" where
  "statistics_of total_counter t =
     \<lparr>total_words = sum_list (dict_values total_counter),
      unique_words = dict_len total_counter,
      frequencies = total_counter,
      top_10 = get_top_words total_counter 10,
      computation_time = t\<rparr>"

definition compute_word_statistics_simple ::
    "world \<Rightarrow> string list \<Rightarrow> string \<Rightarrow> statistics \<times> console_line list" where
  "compute_word_statistics_simple e ws meth =
     (let total_counter = count_words_simple ws;
          t = run_elapsed e meth
      in (statistics_of total_counter t, [Info_computing meth, Info_completed t]))"

text \<open>
  \<^verbatim>\<open>range(start, stop, step)\<close> for natural numbers: a step of zero raises
  \<^verbatim>\<open>ValueError\<close>, whatever \<open>start\<close> and \<open>stop\<close> are.
\<close>

function range_from :: "nat \<Rightarrow> nat \<Rightarrow> nat \<Rightarrow> nat list" where
  "range_from i stop step =
     (if step = 0 \<or> stop \<le> i then [] else i # range_from (i + step) stop step)"
  by pat_completeness auto
termination
  by (relation "measure (\<lambda>(i, stop, step). stop - i)") auto

declare range_from.simps [simp del]

definition py_range :: "nat \<Rightarrow> nat \<Rightarrow> nat \<Rightarrow> exn + nat list" where
  "py_range start stop step =
     (if step = 0 then Inl ValueError else Inr (range_from start stop step))"

text \<open>
  Both chunked computations cut the words up with the same lines:
  \<^verbatim>\<open>
  chunk_size = len(words) // 4
  word_chunks = []
  for i in range(0, len(words), chunk_size):
      if i + chunk_size < len(words):
          word_chunks.append(words[i:i + chunk_size])
      else:
          word_chunks.append(words[i:])
          break
  \<close>
  \<open>chunk_loop\<close> is the loop over the indices that \<^verbatim>\<open>range\<close> yields.
\<close>

fun chunk_loop :: "string list \<Rightarrow> nat \<Rightarrow> nat list \<Rightarrow> string list list \<Rightarrow> string list list" where
  "chunk_loop ws chunk_size [] word_chunks = word_chunks"
| "chunk_loop ws chunk_size (i # rest) word_chunks =
     (if i + chunk_size < length ws
      then chunk_loop ws chunk_size rest (word_chunks @ [take chunk_size (drop i ws)])
      else word_chunks @ [drop i ws])"

definition make_word_chunks :: "string list \<Rightarrow> exn + string list list" where
  "make_word_chunks ws =
     (let chunk_size = length ws div 4
      in case py_range 0 (length ws) chunk_size of
           Inl x \<Rightarrow> Inl x
         | Inr indices \<Rightarrow> Inr (chunk_loop ws chunk_size indices []))"

text \<open>
  \<^verbatim>\<open>_compute_stats_threading_simple\<close> (an Isabelle name does not start with an underscore):
  \<^verbatim>\<open>
  results = [None] * len(word_chunks)
  def count_words(chunk, results, index):
      counter = count_words_simple(chunk)
      results[index] = counter
  for i, chunk in enumerate(word_chunks):
      thread = threading.Thread(target=count_words, args=(chunk, results, i))
      threads.append(thread)
      thread.start()
  for thread in threads:
      thread.join()
  total_counter = merge_counters([r for r in results if r is not None])
  \<close>
  and the same dictionary is returned as by \<^verbatim>\<open>compute_word_statistics_simple\<close>.
\<close>

definition compute_stats_threading_simple ::
    "world \<Rightarrow> nat list \<Rightarrow> string list \<Rightarrow> exn + statistics" where
  "compute_stats_threading_simple e sched ws =
     (case make_word_chunks ws of
        Inl x \<Rightarrow> Inl x
      | Inr word_chunks \<Rightarrow>
          (let results = run_threads sched (\<lambda>i. count_words_simple (word_chunks ! i))
                           (replicate (length word_chunks) None);
               total_counter = merge_counters (map the (filter (\<lambda>r. r \<noteq> None) results))
           in Inr (statistics_of total_counter (run_elapsed e ''threading''))))"

text \<open>
  \<^verbatim>\<open>_compute_stats_multiprocessing_simple\<close>:
  \<^verbatim>\<open>
  with multiprocessing.Pool(4) as pool:
      counters = pool.map(count_chunk_standalone, word_chunks)
  total_counter = merge_counters(counters)
  \<close>
\<close>

definition count_chunk_standalone :: "string list \<Rightarrow> counter" where
  "count_chunk_standalone chunk = count_words_simple chunk"

definition compute_stats_multiprocessing_simple :: "world \<Rightarrow> string list \<Rightarrow> exn + statistics" where
  "compute_stats_multiprocessing_simple e ws =
     (case make_word_chunks ws of
        Inl x \<Rightarrow> Inl x
      | Inr word_chunks \<Rightarrow>
          (let counters = pool_map count_chunk_standalone word_chunks;
               total_counter = merge_counters counters
           in Inr (statistics_of total_counter (run_elapsed e ''multiprocessing''))))"

text \<open>
  The statistics part of \<^verbatim>\<open>main\<close> (\<^verbatim>\<open>main.py\<close>, lines 50 to 60):
  \<^verbatim>\<open>
  best_words = result_sequential['words']
  stats_threading = processor.compute_word_statistics_simple(best_words, 'threading')
  stats_multiprocessing = processor.compute_word_statistics_simple(best_words, 'multiprocessing')
  \<close>
\<close>

definition main_statistics :: "world \<Rightarrow> batch_result \<Rightarrow> statistics \<times> statistics" where
  "main_statistics e result_sequential =
     (let best_words = words result_sequential;
          stats_threading = fst (compute_word_statistics_simple e best_words ''threading'');
          stats_multiprocessing =
            fst (compute_word_statistics_simple e best_words ''multiprocessing'')
      in (stats_threading, stats_multiprocessing))"

section \<open>Auxiliary definitions\<close>

text \<open>
  Names for the bodies of the two counting loops, used in the proofs only: \<open>bump\<close> is
  one pass through \<^verbatim>\<open>d[k] = d.get(k, 0) + c\<close>, \<open>count_into\<close> and \<open>merge_into\<close> are the
  loops of \<^verbatim>\<open>count_words_simple\<close> and the inner loop of \<^verbatim>\<open>merge_counters\<close> started from
  any counter, and \<open>add_keys\<close> is what such a loop does to the list of keys.
\<close>

definition bump :: "counter \<Rightarrow> string \<Rightarrow> int \<Rightarrow> counter" where
  "bump d k c = dict_set d k (dict_get d k 0 + c)"

fun add_keys :: "string list \<Rightarrow> string list \<Rightarrow> string list" where
  "add_keys ks [] = ks"
| "add_keys ks (w # ws) = add_keys (if w \<in> set ks then ks else ks @ [w]) ws"

definition count_into :: "counter \<Rightarrow> string list \<Rightarrow> counter" where
  "count_into r ws = foldl (\<lambda>d w. bump d w 1) r ws"

definition merge_into :: "counter \<Rightarrow> counter \<Rightarrow> counter" where
  "merge_into r d = foldl (\<lambda>r (w, c). bump r w c) r d"

text \<open>The word list of what \<^verbatim>\<open>read_and_clean_file\<close> returns.\<close>

definition result_words :: "file_result \<times> console_line \<Rightarrow> string list" where
  "result_words r = fst (snd (fst r))"

text \<open>
  A directory snapshot for the examples: the folder lists two text files and one other
  file; \<^verbatim>\<open>data/a.txt\<close> cannot be read, every other file holds the text of the
  specification's tokenizer example; every duration measured is zero.
\<close>

definition example_world :: world where
  "example_world = \<lparr>listdir = (\<lambda>_. Inr [''a.txt'', ''notes.md'', ''b.txt'']),
             open_read = (\<lambda>p. if p = ''data/a.txt'' then Inl PermissionError
                                else Inr ''Hello, World! 123 foo-bar''),
             file_elapsed = (\<lambda>_. 0), run_elapsed = (\<lambda>_. 0)\<rparr>"

section \<open>Lemmas on counters\<close>

lemma keys_dict_set:
  "map fst (dict_set d k v) = (if k \<in> set (map fst d) then map fst d else map fst d @ [k])"
  by (induction d) (auto simp: rev_image_eqI)

lemma dict_get_dict_set:
  "dict_get (dict_set d k v) k' x = (if k' = k then v else dict_get d k' x)"
  by (induction d) auto

lemma dict_get_absent: "k \<notin> fst ` set d \<Longrightarrow> dict_get d k x = x"
  by (induction d) auto

lemma map_of_dict_get: "k \<in> fst ` set d \<Longrightarrow> map_of d k = Some (dict_get d k x)"
  by (induction d) (auto simp: rev_image_eqI)

lemma dict_get_member: "distinct (map fst d) \<Longrightarrow> (k, v) \<in> set d \<Longrightarrow> dict_get d k x = v"
  by (induction d) (auto simp: rev_image_eqI)

lemma sum_values_bump: "sum_list (map snd (bump d k c)) = sum_list (map snd d) + c"
  unfolding bump_def by (induction d) auto

lemma keys_bump: "map fst (bump d k c) = add_keys (map fst d) [k]"
  by (simp add: bump_def keys_dict_set)

lemma dict_get_bump: "dict_get (bump d k c) k' 0 = dict_get d k' 0 + (if k' = k then c else 0)"
  by (simp add: bump_def dict_get_dict_set)

lemma set_add_keys: "set (add_keys ks ws) = set ks \<union> set ws"
  by (induction ws arbitrary: ks) auto

lemma distinct_add_keys: "distinct ks \<Longrightarrow> distinct (add_keys ks ws)"
  by (induction ws arbitrary: ks) auto

lemma add_keys_append: "add_keys ks (xs @ ys) = add_keys (add_keys ks xs) ys"
  by (induction xs arbitrary: ks) auto

lemma add_keys_absorb: "add_keys ks (add_keys xs ys) = add_keys ks (xs @ ys)"
proof (induction ys rule: rev_induct)
  case Nil
  then show ?case by simp
next
  case (snoc w ys)
  have step: "add_keys xs (ys @ [w]) = add_keys (add_keys xs ys) [w]"
    by (simp add: add_keys_append)
  show ?case
  proof (cases "w \<in> set xs \<union> set ys")
    case True
    then show ?thesis
      using snoc by (simp add: add_keys_append set_add_keys)
  next
    case False
    then show ?thesis
      using snoc by (simp add: add_keys_append set_add_keys)
  qed
qed

lemma add_keys_distinct_id: "distinct ws \<Longrightarrow> add_keys [] ws = ws"
proof (induction ws rule: rev_induct)
  case Nil
  then show ?case by simp
next
  case (snoc w ws)
  then show ?case by (simp add: add_keys_append)
qed

lemma count_into_snoc: "count_into r (ws @ [w]) = bump (count_into r ws) w 1"
  by (simp add: count_into_def)

lemma merge_into_snoc: "merge_into r (d @ [(w, c)]) = bump (merge_into r d) w c"
  by (simp add: merge_into_def)

lemma keys_count_into: "map fst (count_into r ws) = add_keys (map fst r) ws"
  by (induction ws rule: rev_induct) (simp_all add: count_into_def keys_bump add_keys_append)

lemma dict_get_count_into:
  "dict_get (count_into r ws) k 0 = dict_get r k 0 + int (count_list ws k)"
  by (induction ws rule: rev_induct) (simp_all add: count_into_def dict_get_bump)

lemma sum_values_count_into:
  "sum_list (map snd (count_into r ws)) = sum_list (map snd r) + int (length ws)"
  by (induction ws rule: rev_induct) (simp_all add: count_into_def sum_values_bump)

lemma keys_merge_into: "map fst (merge_into r d) = add_keys (map fst r) (map fst d)"
proof (induction d rule: rev_induct)
  case Nil
  then show ?case by (simp add: merge_into_def)
next
  case (snoc p d)
  obtain w c where p: "p = (w, c)" by (cases p)
  show ?case
    using snoc by (simp add: p merge_into_snoc keys_bump add_keys_append)
qed

lemma dict_get_merge_into:
  "distinct (map fst d) \<Longrightarrow> dict_get (merge_into r d) k 0 = dict_get r k 0 + dict_get d k 0"
proof (induction d arbitrary: r)
  case Nil
  then show ?case by (simp add: merge_into_def)
next
  case (Cons p d)
  obtain w c where p: "p = (w, c)" by (cases p)
  have step: "merge_into r (p # d) = merge_into (bump r w c) d"
    by (simp add: merge_into_def p)
  from Cons.prems have d: "distinct (map fst d)" and w: "w \<notin> fst ` set d"
    by (simp_all add: p)
  have "dict_get (merge_into (bump r w c) d) k 0 = dict_get (bump r w c) k 0 + dict_get d k 0"
    by (rule Cons.IH [OF d])
  also have "\<dots> = dict_get r k 0 + dict_get (p # d) k 0"
    using w by (auto simp: p dict_get_bump dict_get_absent)
  finally show ?case
    unfolding step .
qed

lemma dict_ext:
  "distinct (map fst a) \<Longrightarrow> map fst a = map fst b \<Longrightarrow>
   (\<And>k. dict_get a k 0 = dict_get b k 0) \<Longrightarrow> a = b"
proof (induction a arbitrary: b)
  case Nil
  then show ?case by simp
next
  case (Cons p a)
  obtain k v where p: "p = (k, v)" by (cases p)
  from Cons.prems(2) obtain v' b' where b: "b = (k, v') # b'" and keys: "map fst a = map fst b'"
    by (cases b) (auto simp: p)
  from Cons.prems(1) have da: "distinct (map fst a)" and ka: "k \<notin> fst ` set a"
    by (simp_all add: p)
  from ka keys have kb: "k \<notin> fst ` set b'"
    by (metis set_map)
  have "v = v'"
    using Cons.prems(3) [of k] by (simp add: p b)
  moreover have "a = b'"
  proof (rule Cons.IH [OF da keys])
    fix k'
    show "dict_get a k' 0 = dict_get b' k' 0"
    proof (cases "k' = k")
      case True
      then show ?thesis using ka kb by (simp add: dict_get_absent)
    next
      case False
      then show ?thesis using Cons.prems(3) [of k'] by (simp add: p b)
    qed
  qed
  ultimately show ?case by (simp add: p b)
qed

lemma merge_into_count_into:
  assumes "distinct (map fst r)"
  shows "merge_into r (count_into [] ws) = count_into r ws"
proof (rule dict_ext)
  show "distinct (map fst (merge_into r (count_into [] ws)))"
    using assms by (simp add: keys_merge_into distinct_add_keys)
  show "map fst (merge_into r (count_into [] ws)) = map fst (count_into r ws)"
    by (simp add: keys_merge_into keys_count_into add_keys_absorb)
  fix k
  have "distinct (map fst (count_into [] ws))"
    by (simp add: keys_count_into distinct_add_keys)
  then show "dict_get (merge_into r (count_into [] ws)) k 0 = dict_get (count_into r ws) k 0"
    by (simp add: dict_get_merge_into dict_get_count_into)
qed

lemma count_words_simple_count_into: "count_words_simple ws = count_into [] ws"
  by (simp add: count_words_simple_def count_into_def bump_def)

lemma merge_into_unfold:
  "foldl (\<lambda>result (word, count). dict_set result word (dict_get result word 0 + count)) =
   merge_into"
  by (intro ext) (simp add: merge_into_def bump_def)

lemma merge_counters_merge_into: "merge_counters cs = foldl merge_into [] cs"
  by (simp add: merge_counters_def merge_into_unfold)

lemma count_into_append: "count_into r (xs @ ys) = count_into (count_into r xs) ys"
  by (simp add: count_into_def)

lemma foldl_merge_into_counts:
  "distinct (map fst r) \<Longrightarrow>
   foldl merge_into r (map count_words_simple chunks) = count_into r (concat chunks)"
proof (induction chunks arbitrary: r)
  case Nil
  then show ?case by (simp add: count_into_def)
next
  case (Cons c chunks)
  have d: "distinct (map fst (count_into r c))"
    using Cons.prems by (simp add: keys_count_into distinct_add_keys)
  have "foldl merge_into r (map count_words_simple (c # chunks)) =
        foldl merge_into (merge_into r (count_into [] c)) (map count_words_simple chunks)"
    by (simp add: count_words_simple_count_into)
  also have "\<dots> = foldl merge_into (count_into r c) (map count_words_simple chunks)"
    by (simp add: merge_into_count_into [OF Cons.prems])
  also have "\<dots> = count_into (count_into r c) (concat chunks)"
    by (rule Cons.IH [OF d])
  finally show ?case
    by (simp add: count_into_append)
qed

lemma merge_counters_chunks:
  "merge_counters (map count_words_simple chunks) = count_words_simple (concat chunks)"
  by (simp add: merge_counters_merge_into foldl_merge_into_counts count_words_simple_count_into)

lemma wf_dict_count_words_simple: "wf_dict (count_words_simple ws)"
  by (simp add: wf_dict_def count_words_simple_count_into keys_count_into distinct_add_keys)

lemma merge_into_empty: "distinct (map fst d) \<Longrightarrow> merge_into [] d = d"
  by (rule dict_ext)
     (simp_all add: keys_merge_into distinct_add_keys add_keys_distinct_id dict_get_merge_into)

lemma distinct_foldl_merge_into:
  "distinct (map fst r) \<Longrightarrow> distinct (map fst (foldl merge_into r cs))"
  by (induction cs arbitrary: r) (simp_all add: keys_merge_into distinct_add_keys)

lemma wf_dict_merge_counters: "wf_dict (merge_counters cs)"
  by (simp add: wf_dict_def merge_counters_merge_into distinct_foldl_merge_into)




lemma keys_count_words_simple: "map fst (count_words_simple ws) = add_keys [] ws"
  by (simp add: count_words_simple_count_into keys_count_into)

lemma keys_set_count_words_simple: "fst ` set (count_words_simple ws) = set ws"
proof -
  have "fst ` set (count_words_simple ws) = set (map fst (count_words_simple ws))"
    by simp
  then show ?thesis
    by (simp only: keys_count_words_simple set_add_keys) simp
qed

lemma length_count_words_simple: "length (count_words_simple ws) = card (set ws)"
proof -
  have "length (count_words_simple ws) = length (map fst (count_words_simple ws))"
    by simp
  also have "\<dots> = length (add_keys [] ws)"
    by (simp only: keys_count_words_simple)
  also have "\<dots> = card (set (add_keys [] ws))"
    by (simp add: distinct_card distinct_add_keys)
  finally show ?thesis
    by (simp add: set_add_keys)
qed

lemma sum_values_count_words_simple:
  "sum_list (map snd (count_words_simple ws)) = int (length ws)"
  by (simp add: count_words_simple_count_into sum_values_count_into)

lemma dict_eqI:
  assumes a: "distinct (map fst a)" and b: "distinct (map fst b)"
    and keys: "fst ` set a = fst ` set b"
    and vals: "\<And>k. dict_get a k 0 = dict_get b k 0"
  shows "dict_eq a b"
proof -
  have "length a = card (fst ` set a)"
    using a by (metis distinct_card length_map set_map)
  moreover have "length b = card (fst ` set b)"
    using b by (metis distinct_card length_map set_map)
  ultimately have len: "length a = length b"
    using keys by simp
  have "map_of b k = Some v" if "(k, v) \<in> set a" for k v
  proof -
    from that have "k \<in> fst ` set b"
      using keys by force
    then have "map_of b k = Some (dict_get b k 0)"
      by (rule map_of_dict_get)
    moreover have "dict_get a k 0 = v"
      using a that by (rule dict_get_member)
    ultimately show ?thesis
      using vals [of k] by simp
  qed
  then show ?thesis
    using len by (auto simp: dict_eq_def list_all_iff)
qed

lemma map_of_dict:
  "map_of d k = (if k \<in> fst ` set d then Some (dict_get d k 0) else None)"
  by (induction d) (auto simp: rev_image_eqI)

lemma keys_set_merge_into: "fst ` set (merge_into a b) = fst ` set a \<union> fst ` set b"
proof -
  have "fst ` set (merge_into a b) = set (map fst (merge_into a b))"
    by simp
  also have "\<dots> = set (map fst a) \<union> set (map fst b)"
    by (simp only: keys_merge_into set_add_keys)
  finally show ?thesis
    by simp
qed


lemma merge_counters_pair: "distinct (map fst a) \<Longrightarrow> merge_counters [a, b] = merge_into a b"
  by (simp add: merge_counters_merge_into merge_into_empty)

lemma merge_counters_single: "distinct (map fst a) \<Longrightarrow> merge_counters [a] = a"
  by (simp add: merge_counters_merge_into merge_into_empty)

lemma distinct_merge_into: "distinct (map fst a) \<Longrightarrow> distinct (map fst (merge_into a b))"
  by (simp add: keys_merge_into distinct_add_keys)

lemma merge_into_assoc:
  assumes "distinct (map fst a)" "distinct (map fst b)" "distinct (map fst c)"
  shows "merge_into (merge_into a b) c = merge_into a (merge_into b c)"
proof (rule dict_ext)
  show "distinct (map fst (merge_into (merge_into a b) c))"
    using assms by (simp add: distinct_merge_into)
  show "map fst (merge_into (merge_into a b) c) = map fst (merge_into a (merge_into b c))"
    by (simp add: keys_merge_into add_keys_absorb add_keys_append)
  fix k
  have "distinct (map fst (merge_into b c))"
    using assms by (simp add: distinct_merge_into)
  then show "dict_get (merge_into (merge_into a b) c) k 0 =
             dict_get (merge_into a (merge_into b c)) k 0"
    using assms by (simp add: dict_get_merge_into)
qed

section \<open>Lemmas on the threads and the chunks\<close>

lemma length_run_threads: "length (run_threads sched job results) = length results"
  unfolding run_threads_def by (induction sched arbitrary: results) simp_all

lemma nth_run_threads:
  "i < length results \<Longrightarrow>
   run_threads sched job results ! i = (if i \<in> set sched then Some (job i) else results ! i)"
  unfolding run_threads_def
proof (induction sched arbitrary: results)
  case Nil
  then show ?case by simp
next
  case (Cons j sched)
  then show ?case by (simp add: nth_list_update)
qed

lemma set_schedule_of: "schedule_of n sched \<Longrightarrow> set sched = {0..<n}"
proof -
  assume "schedule_of n sched"
  then have "set (sort sched) = set [0..<n]"
    by (simp add: schedule_of_def)
  then show ?thesis by simp
qed

lemma run_threads_schedule:
  assumes "schedule_of n sched"
  shows "run_threads sched job (replicate n None) = map (\<lambda>i. Some (job i)) [0..<n]"
proof (rule nth_equalityI)
  show "length (run_threads sched job (replicate n None)) = length (map (\<lambda>i. Some (job i)) [0..<n])"
    by (simp add: length_run_threads)
  fix i
  assume "i < length (run_threads sched job (replicate n None))"
  then have i: "i < n"
    by (simp add: length_run_threads)
  then show "run_threads sched job (replicate n None) ! i = map (\<lambda>i. Some (job i)) [0..<n] ! i"
    using set_schedule_of [OF assms] by (simp add: nth_run_threads)
qed

lemma map_nth_upt: "map (\<lambda>i. f (xs ! i)) [0..<length xs] = map f xs"
  by (rule nth_equalityI) simp_all

lemma run_threads_nth_schedule:
  assumes "schedule_of (length xs) sched"
  shows "run_threads sched (\<lambda>i. f (xs ! i)) (replicate (length xs) None) = map (\<lambda>x. Some (f x)) xs"
proof -
  have "run_threads sched (\<lambda>i. f (xs ! i)) (replicate (length xs) None) =
        map (\<lambda>i. Some (f (xs ! i))) [0..<length xs]"
    by (rule run_threads_schedule [OF assms])
  also have "\<dots> = map (\<lambda>x. Some (f x)) xs"
    by (rule map_nth_upt)
  finally show ?thesis .
qed

lemma concat_chunk_loop:
  "0 < cs \<Longrightarrow> i < length ws \<Longrightarrow>
   concat (chunk_loop ws cs (range_from i (length ws) cs) acc) = concat acc @ drop i ws"
proof (induction i "length ws" cs arbitrary: acc rule: range_from.induct)
  case (1 i step)
  have unfold: "range_from i (length ws) step = i # range_from (i + step) (length ws) step"
    using "1.prems" by (subst range_from.simps) simp
  show ?case
  proof (cases "i + step < length ws")
    case True
    have "concat (chunk_loop ws step (range_from (i + step) (length ws) step)
                   (acc @ [take step (drop i ws)])) =
          concat (acc @ [take step (drop i ws)]) @ drop (i + step) ws"
      using "1.prems" True by (intro "1.hyps") simp_all
    also have "\<dots> = concat acc @ (take step (drop i ws) @ drop step (drop i ws))"
      by (simp add: add.commute)
    also have "\<dots> = concat acc @ drop i ws"
      by (simp only: append_take_drop_id)
    finally show ?thesis
      using True by (simp add: unfold)
  next
    case False
    then show ?thesis by (simp add: unfold)
  qed
qed


lemma make_word_chunks_small: "length ws < 4 \<Longrightarrow> make_word_chunks ws = Inl ValueError"
  by (simp add: make_word_chunks_def py_range_def)

lemma make_word_chunks_large:
  assumes "4 \<le> length ws"
  shows "\<exists>chunks. make_word_chunks ws = Inr chunks \<and> concat chunks = ws"
proof -
  have cs: "0 < length ws div 4"
    using assms by (simp add: div_greater_zero_iff)
  have pos: "0 < length ws"
    using assms by linarith
  have "concat (chunk_loop ws (length ws div 4) (range_from 0 (length ws) (length ws div 4)) []) = ws"
    using concat_chunk_loop [OF cs pos, of "[]"] by simp
  then show ?thesis
    using cs by (simp add: make_word_chunks_def py_range_def Let_def)
qed

lemma collect_words_foldl:
  "foldl (\<lambda>(all_words, total_processing_time) filepath.
            (case f filepath of
               (filepath_result, ws, proc_time) \<Rightarrow>
                 (all_words @ ws, total_processing_time + proc_time)))
     (aw, t) filepaths =
   (aw @ concat (map (\<lambda>p. fst (snd (f p))) filepaths),
    t + sum_list (map (\<lambda>p. snd (snd (f p))) filepaths))"
  by (induction filepaths arbitrary: aw t) (simp_all add: split_beta add.assoc)

lemma collect_results_foldl:
  "foldl (\<lambda>(all_words, total_processing_time) (filepath, ws, proc_time).
            (all_words @ ws, total_processing_time + proc_time))
     (aw, t) results =
   (aw @ concat (map (\<lambda>r. fst (snd r)) results),
    t + sum_list (map (\<lambda>r. snd (snd r)) results))"
  by (induction results arbitrary: aw t) (simp_all add: split_beta add.assoc)

lemma collect_slots_foldl:
  "foldl (\<lambda>(all_words, total_processing_time) result.
            (case result of
               None \<Rightarrow> (all_words, total_processing_time)
             | Some (filepath, ws, proc_time) \<Rightarrow>
                 (all_words @ ws, total_processing_time + proc_time)))
     (aw, t) (map Some results) =
   (aw @ concat (map (\<lambda>r. fst (snd r)) results),
    t + sum_list (map (\<lambda>r. snd (snd r)) results))"
  by (induction results arbitrary: aw t) (simp_all add: split_beta add.assoc)

lemma read_and_clean_file_standalone_eq:
  "read_and_clean_file_standalone e filepath = read_and_clean_file e filepath"
  by (simp add: read_and_clean_file_standalone_def read_and_clean_file_def)

lemma filter_map_Some: "map the (filter (\<lambda>r. r \<noteq> None) (map Some xs)) = xs"
  by (induction xs) simp_all

lemma chunked_threading_large:
  assumes "4 \<le> length ws" and "make_word_chunks ws = Inr chunks"
    and "schedule_of (length chunks) sched"
  shows "compute_stats_threading_simple e sched ws =
         Inr (statistics_of (count_words_simple ws) (run_elapsed e ''threading''))"
proof -
  obtain chunks' where c: "make_word_chunks ws = Inr chunks'" and cc: "concat chunks' = ws"
    using make_word_chunks_large [OF assms(1)] by blast
  from c assms(2) have eq: "chunks' = chunks" by simp
  have "run_threads sched (\<lambda>i. count_words_simple (chunks ! i)) (replicate (length chunks) None) =
        map (\<lambda>x. Some (count_words_simple x)) chunks"
    by (rule run_threads_nth_schedule [OF assms(3)])
  then have "map the (filter (\<lambda>r. r \<noteq> None)
               (run_threads sched (\<lambda>i. count_words_simple (chunks ! i))
                  (replicate (length chunks) None))) = map count_words_simple chunks"
    using filter_map_Some [of "map count_words_simple chunks"] by (simp add: comp_def)
  then show ?thesis
    using cc eq
    by (simp add: compute_stats_threading_simple_def assms(2) Let_def merge_counters_chunks)
qed

lemma chunked_multiprocessing_large:
  assumes "4 \<le> length ws"
  shows "compute_stats_multiprocessing_simple e ws =
         Inr (statistics_of (count_words_simple ws) (run_elapsed e ''multiprocessing''))"
proof -
  obtain chunks where c: "make_word_chunks ws = Inr chunks" and cc: "concat chunks = ws"
    using make_word_chunks_large [OF assms(1)] by blast
  have "pool_map count_chunk_standalone chunks = map count_words_simple chunks"
    by (simp add: pool_map_def count_chunk_standalone_def)
  then show ?thesis
    using cc
    by (simp add: compute_stats_multiprocessing_simple_def c Let_def merge_counters_chunks)
qed

section \<open>Lemmas on the tokenizer and the strategies\<close>




lemma py_lower_length: "length (py_lower s) = length s"
  by (simp add: py_lower_def)


lemma words_process_with_sequential:
  assumes "listdir e folder_path = Inr names"
  shows "\<exists>b. process_with_sequential e folder_path = Inr b \<and>
             words b = concat (map (\<lambda>p. result_words (read_and_clean_file e p))
                                (txt_filepaths folder_path names))"
  unfolding process_with_sequential_def assms Let_def collect_words_foldl
  by (simp add: result_words_def)

lemma words_process_with_multiprocessing:
  assumes "listdir e folder_path = Inr names"
  shows "\<exists>b. process_with_multiprocessing e folder_path = Inr b \<and>
             words b = concat (map (\<lambda>p. result_words (read_and_clean_file e p))
                                (txt_filepaths folder_path names))"
  unfolding process_with_multiprocessing_def assms Let_def collect_results_foldl pool_map_def
  by (simp add: result_words_def comp_def read_and_clean_file_standalone_eq)

lemma words_process_with_threading:
  assumes "listdir e folder_path = Inr names"
    and "schedule_of (length (txt_filepaths folder_path names)) sched"
  shows "\<exists>b. process_with_threading e sched folder_path = Inr b \<and>
             words b = concat (map (\<lambda>p. result_words (read_and_clean_file e p))
                                (txt_filepaths folder_path names))"
proof -
  let ?fps = "txt_filepaths folder_path names"
  have slots: "run_threads sched (\<lambda>i. fst (read_and_clean_file e (?fps ! i)))
          (replicate (length ?fps) None) =
        map Some (map (\<lambda>p. fst (read_and_clean_file e p)) ?fps)"
    using run_threads_nth_schedule [OF assms(2), of "\<lambda>p. fst (read_and_clean_file e p)"]
    by (simp add: comp_def)
  show ?thesis
    apply (simp only: process_with_threading_def assms(1) Let_def sum.case)
    apply (simp only: slots)
    apply (simp only: collect_slots_foldl)
    apply (simp add: result_words_def comp_def)
    done
qed

lemma strategies_agree:
  assumes "listdir e folder_path = Inr names"
    and "schedule_of (length (txt_filepaths folder_path names)) sched"
  shows "\<exists>bs bt bm.
           process_with_sequential e folder_path = Inr bs
         \<and> process_with_threading e sched folder_path = Inr bt
         \<and> process_with_multiprocessing e folder_path = Inr bm
         \<and> words bs = concat (map (\<lambda>p. result_words (read_and_clean_file e p))
                                (txt_filepaths folder_path names))
         \<and> words bt = words bs \<and> words bm = words bs"
proof -
  obtain bs where bs: "process_with_sequential e folder_path = Inr bs"
    "words bs = concat (map (\<lambda>p. result_words (read_and_clean_file e p))
                          (txt_filepaths folder_path names))"
    using words_process_with_sequential [OF assms(1)] by blast
  obtain bt where bt: "process_with_threading e sched folder_path = Inr bt"
    "words bt = concat (map (\<lambda>p. result_words (read_and_clean_file e p))
                          (txt_filepaths folder_path names))"
    using words_process_with_threading [OF assms] by blast
  obtain bm where bm: "process_with_multiprocessing e folder_path = Inr bm"
    "words bm = concat (map (\<lambda>p. result_words (read_and_clean_file e p))
                          (txt_filepaths folder_path names))"
    using words_process_with_multiprocessing [OF assms(1)] by blast
  from bs bt bm show ?thesis
    by simp
qed

lemma concat_map_skip:
  "f x = [] \<Longrightarrow> concat (map f (filter (\<lambda>p. p \<noteq> x) xs)) = concat (map f xs)"
  by (induction xs) auto

text \<open>
  From four words on, the chunked computations return, and return the frequency map and
  the top-10 list of the direct count.
\<close>

lemma chunked_equals_direct:
  assumes "4 \<le> length ws" and "make_word_chunks ws = Inr chunks"
    and "schedule_of (length chunks) sched"
  shows "map_sum id frequencies (compute_stats_threading_simple e sched ws) =
           Inr (frequencies (fst (compute_word_statistics_simple e ws meth)))"
    and "map_sum id top_10 (compute_stats_threading_simple e sched ws) =
           Inr (top_10 (fst (compute_word_statistics_simple e ws meth)))"
    and "map_sum id frequencies (compute_stats_multiprocessing_simple e ws) =
           Inr (frequencies (fst (compute_word_statistics_simple e ws meth)))"
    and "map_sum id top_10 (compute_stats_multiprocessing_simple e ws) =
           Inr (top_10 (fst (compute_word_statistics_simple e ws meth)))"
  using assms
  by (simp_all add: chunked_threading_large chunked_multiprocessing_large
      compute_word_statistics_simple_def statistics_of_def Let_def)

section \<open>The claims\<close>

text \<open>
  Claim C1. The direct count and the chunked strategy are claimed to give identical
  frequency maps and top-10 lists for every word list. They do from four words on (lemma
  \<open>chunked_equals_direct\<close>); on a shorter list the chunk size \<^verbatim>\<open>len(words) // 4\<close> is
  zero and \<^verbatim>\<open>range\<close> raises \<^verbatim>\<open>ValueError\<close>. This theorem evaluates both computations on
  the empty word list, the word list of an empty directory, where the direct count
  returns the empty statistics.
\<close>

theorem chunked_statistics_raise_on_empty_words:
  "compute_stats_threading_simple e [] [] = Inl ValueError
   \<and> compute_stats_multiprocessing_simple e [] = Inl ValueError
   \<and> frequencies (fst (compute_word_statistics_simple e [] meth)) = []
   \<and> top_10 (fst (compute_word_statistics_simple e [] meth)) = []"
  by (simp add: compute_stats_threading_simple_def compute_stats_multiprocessing_simple_def
      make_word_chunks_small compute_word_statistics_simple_def statistics_of_def
      count_words_simple_def get_top_words_def sorted_by_count_reverse_def py_slice_upto_def
      Let_def)

text \<open>
  Claim C2. For every directory snapshot and every order in which the threads store their
  results, the three strategies return, and their word lists are the concatenation of the
  files' word lists in discovery order: equal as lists, hence as multisets.
\<close>

theorem strategies_same_words:
  assumes "listdir e folder_path = Inr names"
    and "schedule_of (length (txt_filepaths folder_path names)) sched"
  shows "\<exists>bs bt bm.
           process_with_sequential e folder_path = Inr bs
         \<and> process_with_threading e sched folder_path = Inr bt
         \<and> process_with_multiprocessing e folder_path = Inr bm
         \<and> words bs = concat (map (\<lambda>p. result_words (read_and_clean_file e p))
                                (txt_filepaths folder_path names))
         \<and> words bt = words bs \<and> words bm = words bs
         \<and> mset (words bt) = mset (words bs) \<and> mset (words bm) = mset (words bs)"
proof -
  from strategies_agree [OF assms] obtain bs bt bm where
    "process_with_sequential e folder_path = Inr bs"
    "process_with_threading e sched folder_path = Inr bt"
    "process_with_multiprocessing e folder_path = Inr bm"
    "words bs = concat (map (\<lambda>p. result_words (read_and_clean_file e p))
                          (txt_filepaths folder_path names))"
    "words bt = words bs" "words bm = words bs"
    by blast
  then show ?thesis
    by simp
qed

theorem strategies_same_words_witness:
  "listdir example_world ''data'' = Inr [''a.txt'', ''notes.md'', ''b.txt'']
   \<and> schedule_of (length (txt_filepaths ''data'' [''a.txt'', ''notes.md'', ''b.txt''])) [1, 0]
   \<and> (\<exists>bs bt bm.
           process_with_sequential example_world ''data'' = Inr bs
         \<and> process_with_threading example_world [1, 0] ''data'' = Inr bt
         \<and> process_with_multiprocessing example_world ''data'' = Inr bm
         \<and> words bs = [''hello'', ''world'', ''foobar'']
         \<and> words bt = words bs \<and> words bm = words bs)"
proof -
  have 1: "listdir example_world ''data'' = Inr [''a.txt'', ''notes.md'', ''b.txt'']"
    by code_simp
  have 2: "schedule_of (length (txt_filepaths ''data'' [''a.txt'', ''notes.md'', ''b.txt''])) [1, 0]"
    by code_simp
  have 3: "concat (map (\<lambda>p. result_words (read_and_clean_file example_world p))
             (txt_filepaths ''data'' [''a.txt'', ''notes.md'', ''b.txt''])) =
           [''hello'', ''world'', ''foobar'']"
    by code_simp
  from strategies_same_words [OF 1 2] 1 2 3 show ?thesis
    by auto
qed

text \<open>
  Claim C3. For every word list, the statistics returned by
  \<^verbatim>\<open>compute_word_statistics_simple\<close> satisfy: \<open>total_words\<close> is the sum of the values of
  the frequency map, which is the length of the word list; \<open>unique_words\<close> is the number
  of keys of the frequency map, which is the number of different words of the list.
\<close>

theorem statistics_invariants:
  "(let s = fst (compute_word_statistics_simple e ws meth)
    in total_words s = sum_list (dict_values (frequencies s))
     \<and> sum_list (dict_values (frequencies s)) = int (length ws)
     \<and> unique_words s = dict_len (frequencies s)
     \<and> dict_len (frequencies s) = card (set ws)
     \<and> set (dict_keys (frequencies s)) = set ws
     \<and> frequencies s = count_words_simple ws)"
  by (simp add: compute_word_statistics_simple_def statistics_of_def Let_def dict_values_def
      dict_len_def dict_keys_def sum_values_count_words_simple length_count_words_simple
      keys_set_count_words_simple)

text \<open>
  Claim C4. \<^verbatim>\<open>merge_counters\<close> is commutative up to dictionary equality (the order of
  the keys may differ, the key-to-count map does not), the counts of a key add, merging is
  associative (here even with the same key order), and merging the counters of the
  consecutive chunks of a word list gives the counter of the whole list.
\<close>

theorem merge_counters_algebra:
  assumes "wf_dict A" and "wf_dict B" and "wf_dict C"
  shows "dict_eq (merge_counters [A, B]) (merge_counters [B, A])
       \<and> map_of (merge_counters [A, B]) = map_of (merge_counters [B, A])
       \<and> (\<forall>k. dict_get (merge_counters [A, B]) k 0 = dict_get A k 0 + dict_get B k 0)
       \<and> set (dict_keys (merge_counters [A, B])) = set (dict_keys A) \<union> set (dict_keys B)
       \<and> merge_counters [merge_counters [A, B], C] = merge_counters [A, merge_counters [B, C]]
       \<and> merge_counters [merge_counters [A, B], C] = merge_counters [A, B, C]
       \<and> merge_counters (map count_words_simple chunks) = count_words_simple (concat chunks)"
proof -
  from assms have a: "distinct (map fst A)" and b: "distinct (map fst B)"
    and c: "distinct (map fst C)"
    by (simp_all add: wf_dict_def)
  have ab: "merge_counters [A, B] = merge_into A B" and ba: "merge_counters [B, A] = merge_into B A"
    and bc: "merge_counters [B, C] = merge_into B C"
    using a b by (simp_all add: merge_counters_pair)
  have dab: "distinct (map fst (merge_into A B))" and dba: "distinct (map fst (merge_into B A))"
    and dbc: "distinct (map fst (merge_into B C))"
    using a b by (simp_all add: distinct_merge_into)
  have vals: "dict_get (merge_into A B) k 0 = dict_get (merge_into B A) k 0" for k
    using a b by (simp add: dict_get_merge_into)
  have keys: "fst ` set (merge_into A B) = fst ` set (merge_into B A)"
    by (auto simp: keys_set_merge_into)
  have 1: "dict_eq (merge_counters [A, B]) (merge_counters [B, A])"
    unfolding ab ba using dab dba keys vals by (rule dict_eqI)
  have 2: "map_of (merge_counters [A, B]) = map_of (merge_counters [B, A])"
    unfolding ab ba by (rule ext) (simp add: map_of_dict keys vals)
  have 3: "\<forall>k. dict_get (merge_counters [A, B]) k 0 = dict_get A k 0 + dict_get B k 0"
    unfolding ab using b by (simp add: dict_get_merge_into)
  have 4: "set (dict_keys (merge_counters [A, B])) = set (dict_keys A) \<union> set (dict_keys B)"
    unfolding ab by (simp add: dict_keys_def keys_set_merge_into)
  have 5: "merge_counters [merge_counters [A, B], C] = merge_counters [A, merge_counters [B, C]]"
    unfolding ab bc using a b c dab
    by (simp add: merge_counters_pair merge_into_assoc)
  have 6: "merge_counters [merge_counters [A, B], C] = merge_counters [A, B, C]"
    unfolding ab using a dab
    by (simp add: merge_counters_merge_into merge_into_empty)
  have 7: "merge_counters (map count_words_simple chunks) = count_words_simple (concat chunks)"
    by (rule merge_counters_chunks)
  from 1 2 3 4 5 6 7 show ?thesis
    by blast
qed

theorem merge_counters_algebra_witness:
  "wf_dict [(''a'', 2), (''b'', 1)] \<and> wf_dict [(''c'', 5), (''a'', 3)] \<and> wf_dict [(''b'', 4)]
   \<and> merge_counters [[(''a'', 2), (''b'', 1)], [(''c'', 5), (''a'', 3)]]
       = [(''a'', 5), (''b'', 1), (''c'', 5)]
   \<and> merge_counters [[(''c'', 5), (''a'', 3)], [(''a'', 2), (''b'', 1)]]
       = [(''c'', 5), (''a'', 5), (''b'', 1)]
   \<and> dict_eq [(''a'', 5), (''b'', 1), (''c'', 5)] [(''c'', 5), (''a'', 5), (''b'', 1)]
   \<and> merge_counters [[(''a'', 5), (''b'', 1), (''c'', 5)], [(''b'', 4)]]
       = merge_counters [[(''a'', 2), (''b'', 1)], [(''c'', 5), (''a'', 3)], [(''b'', 4)]]
   \<and> merge_counters (map count_words_simple [[''x'', ''y''], [''y''], [''z'', ''x'']])
       = count_words_simple [''x'', ''y'', ''y'', ''z'', ''x'']"
  using merge_counters_algebra [of "[(''a'', 2), (''b'', 1)]" "[(''c'', 5), (''a'', 3)]" "[(''b'', 4)]"
                 "[[''x'', ''y''], [''y''], [''z'', ''x'']]"]
  by (simp add: wf_dict_def merge_counters_def)






text \<open>
  Claim C7. If opening or reading a file raises, \<^verbatim>\<open>read_and_clean_file\<close> returns the
  triple of the path, the empty word list and the measured duration, and prints the
  error line; every strategy still returns its batch result, to which the file
  contributes no word.
\<close>

theorem read_failure_absorbed:
  assumes "open_read e filepath = Inl x"
  shows "read_and_clean_file e filepath =
           ((filepath, [], file_elapsed e filepath), Error_reading filepath x)
       \<and> read_and_clean_file_standalone e filepath =
           ((filepath, [], file_elapsed e filepath), Error_reading filepath x)
       \<and> (\<forall>folder_path names sched.
            listdir e folder_path = Inr names
            \<and> schedule_of (length (txt_filepaths folder_path names)) sched \<longrightarrow>
            (\<exists>bs bt bm.
               process_with_sequential e folder_path = Inr bs
             \<and> process_with_threading e sched folder_path = Inr bt
             \<and> process_with_multiprocessing e folder_path = Inr bm
             \<and> words bs = concat (map (\<lambda>p. result_words (read_and_clean_file e p))
                   (filter (\<lambda>p. p \<noteq> filepath) (txt_filepaths folder_path names)))
             \<and> words bt = words bs \<and> words bm = words bs))"
proof (intro conjI allI impI)
  show r: "read_and_clean_file e filepath =
           ((filepath, [], file_elapsed e filepath), Error_reading filepath x)"
    by (simp add: read_and_clean_file_def assms)
  then show "read_and_clean_file_standalone e filepath =
           ((filepath, [], file_elapsed e filepath), Error_reading filepath x)"
    by (simp add: read_and_clean_file_standalone_eq)
  fix folder_path names sched
  assume h: "listdir e folder_path = Inr names
             \<and> schedule_of (length (txt_filepaths folder_path names)) sched"
  have none: "result_words (read_and_clean_file e filepath) = []"
    by (simp add: r result_words_def)
  have skip: "concat (map (\<lambda>p. result_words (read_and_clean_file e p))
                 (filter (\<lambda>p. p \<noteq> filepath) (txt_filepaths folder_path names))) =
              concat (map (\<lambda>p. result_words (read_and_clean_file e p))
                 (txt_filepaths folder_path names))"
    using none by (rule concat_map_skip)
  from h strategies_agree [of e folder_path names sched]
  show "\<exists>bs bt bm.
               process_with_sequential e folder_path = Inr bs
             \<and> process_with_threading e sched folder_path = Inr bt
             \<and> process_with_multiprocessing e folder_path = Inr bm
             \<and> words bs = concat (map (\<lambda>p. result_words (read_and_clean_file e p))
                   (filter (\<lambda>p. p \<noteq> filepath) (txt_filepaths folder_path names)))
             \<and> words bt = words bs \<and> words bm = words bs"
    unfolding skip by blast
qed

theorem read_failure_absorbed_witness:
  "open_read example_world ''data/a.txt'' = Inl PermissionError
   \<and> read_and_clean_file example_world ''data/a.txt'' =
       ((''data/a.txt'', [], 0), Error_reading ''data/a.txt'' PermissionError)
   \<and> listdir example_world ''data'' = Inr [''a.txt'', ''notes.md'', ''b.txt'']
   \<and> schedule_of (length (txt_filepaths ''data'' [''a.txt'', ''notes.md'', ''b.txt''])) [1, 0]
   \<and> (\<exists>bs bt bm.
         process_with_sequential example_world ''data'' = Inr bs
       \<and> process_with_threading example_world [1, 0] ''data'' = Inr bt
       \<and> process_with_multiprocessing example_world ''data'' = Inr bm
       \<and> words bs = [''hello'', ''world'', ''foobar'']
       \<and> words bt = words bs \<and> words bm = words bs)"
proof -
  have 1: "open_read example_world ''data/a.txt'' = Inl PermissionError"
    by code_simp
  have 2: "listdir example_world ''data'' = Inr [''a.txt'', ''notes.md'', ''b.txt'']"
    by code_simp
  have 3: "schedule_of (length (txt_filepaths ''data'' [''a.txt'', ''notes.md'', ''b.txt''])) [1, 0]"
    by code_simp
  have 4: "file_elapsed example_world ''data/a.txt'' = 0"
    by code_simp
  have 5: "concat (map (\<lambda>p. result_words (read_and_clean_file example_world p))
             (filter (\<lambda>p. p \<noteq> ''data/a.txt'')
                (txt_filepaths ''data'' [''a.txt'', ''notes.md'', ''b.txt'']))) =
           [''hello'', ''world'', ''foobar'']"
    by code_simp
  note t = read_failure_absorbed [OF 1]
  from t have a: "read_and_clean_file example_world ''data/a.txt'' =
       ((''data/a.txt'', [], file_elapsed example_world ''data/a.txt''),
        Error_reading ''data/a.txt'' PermissionError)"
    by (rule conjunct1)
  from t 2 3 obtain bs bt bm where b:
    "process_with_sequential example_world ''data'' = Inr bs"
    "process_with_threading example_world [1, 0] ''data'' = Inr bt"
    "process_with_multiprocessing example_world ''data'' = Inr bm"
    "words bs = concat (map (\<lambda>p. result_words (read_and_clean_file example_world p))
             (filter (\<lambda>p. p \<noteq> ''data/a.txt'')
                (txt_filepaths ''data'' [''a.txt'', ''notes.md'', ''b.txt''])))"
    "words bt = words bs" "words bm = words bs"
    by blast
  from a b 1 2 3 show ?thesis
    unfolding 4 5 by blast
qed

text \<open>
  Claim C8. When discovery yields no file path, each strategy returns an empty word list
  without error (no thread is started, so the schedule is empty), and the statistics of
  that word list are zero words, zero unique words, an empty frequency map and an empty
  top-10 list.
\<close>

theorem empty_directory_zero_statistics:
  assumes "listdir e folder_path = Inr names" and "txt_filepaths folder_path names = []"
  shows "process_with_sequential e folder_path =
           Inr \<lparr>words = [], method_label = ''sequential'',
                total_time = run_elapsed e ''sequential'', processing_time = 0\<rparr>
       \<and> process_with_threading e [] folder_path =
           Inr \<lparr>words = [], method_label = ''threading'',
                total_time = run_elapsed e ''threading'', processing_time = 0\<rparr>
       \<and> process_with_multiprocessing e folder_path =
           Inr \<lparr>words = [], method_label = ''multiprocessing'',
                total_time = run_elapsed e ''multiprocessing'', processing_time = 0\<rparr>
       \<and> fst (compute_word_statistics_simple e [] meth) =
           \<lparr>total_words = 0, unique_words = 0, frequencies = [], top_10 = [],
            computation_time = run_elapsed e meth\<rparr>"
  by (simp add: process_with_sequential_def process_with_threading_def
      process_with_multiprocessing_def assms run_threads_def pool_map_def
      compute_word_statistics_simple_def statistics_of_def count_words_simple_def
      get_top_words_def sorted_by_count_reverse_def py_slice_upto_def dict_values_def
      dict_len_def Let_def)

theorem empty_directory_zero_statistics_witness:
  "listdir (example_world\<lparr>listdir := \<lambda>_. Inr [''notes.md'']\<rparr>) ''data'' = Inr [''notes.md'']
   \<and> txt_filepaths ''data'' [''notes.md''] = []
   \<and> process_with_sequential (example_world\<lparr>listdir := \<lambda>_. Inr [''notes.md'']\<rparr>) ''data'' =
           Inr \<lparr>words = [], method_label = ''sequential'', total_time = 0, processing_time = 0\<rparr>
   \<and> process_with_threading (example_world\<lparr>listdir := \<lambda>_. Inr [''notes.md'']\<rparr>) [] ''data'' =
           Inr \<lparr>words = [], method_label = ''threading'', total_time = 0, processing_time = 0\<rparr>
   \<and> process_with_multiprocessing (example_world\<lparr>listdir := \<lambda>_. Inr [''notes.md'']\<rparr>) ''data'' =
           Inr \<lparr>words = [], method_label = ''multiprocessing'', total_time = 0,
                processing_time = 0\<rparr>
   \<and> fst (compute_word_statistics_simple (example_world\<lparr>listdir := \<lambda>_. Inr [''notes.md'']\<rparr>) []
            ''threading'') =
           \<lparr>total_words = 0, unique_words = 0, frequencies = [], top_10 = [],
            computation_time = 0\<rparr>"
proof -
  have 1: "listdir (example_world\<lparr>listdir := \<lambda>_. Inr [''notes.md'']\<rparr>) ''data'' = Inr [''notes.md'']"
    by simp
  have 2: "txt_filepaths ''data'' [''notes.md''] = []"
    by code_simp
  have 3: "run_elapsed example_world m = 0" for m
    by (simp add: example_world_def)
  from empty_directory_zero_statistics [OF 1 2, of "''threading''"] 1 2 show ?thesis
    by (simp add: 3)
qed

text \<open>
  Claim C9. On a word list of fewer than four elements, the empty list included, both
  chunked computations raise \<^verbatim>\<open>ValueError\<close>; from four elements on both return
  statistics.
\<close>

theorem chunked_statistics_need_four_words:
  "(length ws < 4 \<longrightarrow>
      compute_stats_threading_simple e sched ws = Inl ValueError
    \<and> compute_stats_multiprocessing_simple e ws = Inl ValueError)
   \<and> (4 \<le> length ws \<longrightarrow>
      (\<exists>s. compute_stats_threading_simple e sched ws = Inr s)
    \<and> (\<exists>s. compute_stats_multiprocessing_simple e ws = Inr s))"
proof (intro conjI impI)
  assume "length ws < 4"
  then have "make_word_chunks ws = Inl ValueError"
    by (rule make_word_chunks_small)
  then show "compute_stats_threading_simple e sched ws = Inl ValueError"
    and "compute_stats_multiprocessing_simple e ws = Inl ValueError"
    by (simp_all add: compute_stats_threading_simple_def compute_stats_multiprocessing_simple_def)
next
  assume "4 \<le> length ws"
  then obtain chunks where "make_word_chunks ws = Inr chunks"
    using make_word_chunks_large by blast
  then show "\<exists>s. compute_stats_threading_simple e sched ws = Inr s"
    and "\<exists>s. compute_stats_multiprocessing_simple e ws = Inr s"
    by (simp_all add: compute_stats_threading_simple_def compute_stats_multiprocessing_simple_def
        Let_def)
qed

theorem chunked_statistics_need_four_words_witness:
  "length [''a'', ''b'', ''c''] < 4
   \<and> compute_stats_threading_simple example_world [] [''a'', ''b'', ''c''] = Inl ValueError
   \<and> compute_stats_multiprocessing_simple example_world [''a'', ''b'', ''c''] = Inl ValueError
   \<and> 4 \<le> length [''a'', ''b'', ''c'', ''b'', ''e'']
   \<and> (\<exists>s. compute_stats_threading_simple example_world [3, 1, 0, 2, 4] [''a'', ''b'', ''c'', ''b'', ''e'']
            = Inr s)
   \<and> (\<exists>s. compute_stats_multiprocessing_simple example_world [''a'', ''b'', ''c'', ''b'', ''e''] = Inr s)"
  using chunked_statistics_need_four_words [of "[''a'', ''b'', ''c'']" example_world "[]"]
    chunked_statistics_need_four_words [of "[''a'', ''b'', ''c'', ''b'', ''e'']" example_world "[3, 1, 0, 2, 4]"]
  by simp

text \<open>
  Claim C10. The statistics returned by \<^verbatim>\<open>compute_word_statistics_simple\<close> do not depend
  on the method label, which only appears in the line printed: total, unique count,
  frequency map and top-10 list agree for any two labels, and so do the two statistics
  that \<^verbatim>\<open>main\<close> computes under the labels \<^verbatim>\<open>threading\<close> and \<^verbatim>\<open>multiprocessing\<close>.
\<close>

theorem statistics_independent_of_method:
  "(let s1 = fst (compute_word_statistics_simple e ws m1);
        s2 = fst (compute_word_statistics_simple e ws m2)
    in total_words s1 = total_words s2 \<and> unique_words s1 = unique_words s2
     \<and> frequencies s1 = frequencies s2 \<and> top_10 s1 = top_10 s2)
   \<and> (let (stats_threading, stats_multiprocessing) = main_statistics e result_sequential
      in total_words stats_threading = total_words stats_multiprocessing
       \<and> unique_words stats_threading = unique_words stats_multiprocessing
       \<and> frequencies stats_threading = frequencies stats_multiprocessing
       \<and> top_10 stats_threading = top_10 stats_multiprocessing)
   \<and> snd (compute_word_statistics_simple e ws m1) =
        [Info_computing m1, Info_completed (run_elapsed e m1)]"
  by (simp add: compute_word_statistics_simple_def statistics_of_def main_statistics_def Let_def)

end
